theory Spec2Isabelle
  imports Complex_Main
begin

section \<open>Python numbers\<close>

text \<open>
  The icon generator \<^verbatim>\<open>generate_icon.py\<close> computes with Python's unbounded integers (\<open>int\<close>
  here) and with Python floats, which are IEEE 754 binary64 numbers. A finite binary64
  number is \<open>m * 2^e\<close> for integers \<open>m\<close> and \<open>e\<close> with \<open>\<bar>m\<bar> < 2^53\<close>; \<open>Float m e\<close> stands for
  it, with \<open>m\<close> odd (or \<open>Float 0 0\<close>), so that equal numbers are equal terms. Every float
  operation is the exact operation on these numbers followed by rounding to 53 significant
  bits, to the nearest, ties to the even mantissa. The exponent range (overflow to
  infinity, subnormal numbers) is not modelled: every quantity the program computes for
  an icon size lies between \<open>2^-10\<close> and \<open>2^10\<close>.
\<close>

datatype py_error = ZeroDivisionError | IndexError | FileExistsError | FileNotFoundError
  | NotADirectoryError | IsADirectoryError

datatype pyfloat = Float int int

text \<open>The number of bits of a positive integer, taken sixteen, four or one at a time.\<close>

function bitlen :: "int \<Rightarrow> int" where
  "bitlen n = (if n < 1 then 0
               else if n < 16 then 1 + bitlen (n div 2)
               else if n < 65536 then 4 + bitlen (n div 16)
               else 16 + bitlen (n div 65536))"
  by pat_completeness auto
termination
  by (relation "measure nat") auto

declare bitlen.simps [simp del]

text \<open>\<open>strip a e\<close> is \<open>a * 2^e\<close> for \<open>a \<ge> 0\<close>, with the trailing zero bits of \<open>a\<close> moved into the exponent.\<close>

function strip :: "int \<Rightarrow> int \<Rightarrow> int \<times> int" where
  "strip a e = (if a < 1 then (0, 0)
                else if a mod 65536 = 0 then strip (a div 65536) (e + 16)
                else if a mod 16 = 0 then strip (a div 16) (e + 4)
                else if a mod 2 = 0 then strip (a div 2) (e + 1)
                else (a, e))"
  by pat_completeness auto
termination
  by (relation "measure (\<lambda>(a, e). nat a)") auto

declare strip.simps [simp del]

text \<open>
  \<open>round53 m e\<close> is the binary64 number nearest to \<open>m * 2^e\<close>: a mantissa below \<open>2^53\<close> is
  kept; a longer one loses its \<open>k\<close> low bits, rounded to nearest, ties to even.
\<close>

definition round53 :: "int \<Rightarrow> int \<Rightarrow> pyfloat" where
  "round53 m e =
     (let a = \<bar>m\<bar>;
          (q, e') =
            (if a < 9007199254740992 then strip a e
             else (let k = nat (bitlen a - 53);
                       q = a div 2 ^ k;
                       rest = a mod 2 ^ k;
                       half = 2 ^ (k - 1)
                   in strip (if half < rest \<or> (rest = half \<and> odd q) then q + 1 else q) (e + int k)))
      in Float (sgn m * q) e')"

text \<open>
  \<open>round_quot a b\<close> is the binary64 number nearest to \<open>a / b\<close> (\<open>b \<noteq> 0\<close>): the quotient is
  computed to at least 55 bits, a sticky bit records a remainder, and \<open>round53\<close> rounds.
\<close>

definition round_quot :: "int \<Rightarrow> int \<Rightarrow> pyfloat" where
  "round_quot a b =
     (let s = 55 + bitlen \<bar>b\<bar> - bitlen \<bar>a\<bar>;
          num = (if 0 \<le> s then \<bar>a\<bar> * 2 ^ nat s else \<bar>a\<bar>);
          den = (if 0 \<le> s then \<bar>b\<bar> else \<bar>b\<bar> * 2 ^ nat (- s));
          q = num div den;
          sticky = (if num mod den = 0 then 0 else 1)
      in round53 (sgn a * sgn b * (2 * q + sticky)) (- s - 1))"

text \<open>A decimal literal such as \<^verbatim>\<open>0.06\<close> is \<open>float_lit 6 2\<close>: the double nearest to \<open>6 / 10^2\<close>.\<close>

definition float_lit :: "int \<Rightarrow> nat \<Rightarrow> pyfloat" where
  "float_lit d k = round_quot d (10 ^ k)"

text \<open>An \<open>int\<close> operand of a mixed operation is converted to a float first.\<close>

definition float_of_int :: "int \<Rightarrow> pyfloat" where
  "float_of_int n = round53 n 0"

fun fadd :: "pyfloat \<Rightarrow> pyfloat \<Rightarrow> pyfloat" where
  "fadd (Float m1 e1) (Float m2 e2) =
     (let e = min e1 e2 in round53 (m1 * 2 ^ nat (e1 - e) + m2 * 2 ^ nat (e2 - e)) e)"

fun fsub :: "pyfloat \<Rightarrow> pyfloat \<Rightarrow> pyfloat" where
  "fsub (Float m1 e1) (Float m2 e2) =
     (let e = min e1 e2 in round53 (m1 * 2 ^ nat (e1 - e) - m2 * 2 ^ nat (e2 - e)) e)"

fun fmul :: "pyfloat \<Rightarrow> pyfloat \<Rightarrow> pyfloat" where
  "fmul (Float m1 e1) (Float m2 e2) = round53 (m1 * m2) (e1 + e2)"

text \<open>\<^verbatim>\<open>a / b\<close> on two ints: the correctly rounded quotient, or ZeroDivisionError.\<close>

definition py_truediv :: "int \<Rightarrow> int \<Rightarrow> py_error + pyfloat" where
  "py_truediv a b = (if b = 0 then Inl ZeroDivisionError else Inr (round_quot a b))"

text \<open>\<^verbatim>\<open>int(x)\<close> on a float truncates toward zero.\<close>

fun py_int :: "pyfloat \<Rightarrow> int" where
  "py_int (Float m e) = (if 0 \<le> e then m * 2 ^ nat e else sgn m * (\<bar>m\<bar> div 2 ^ nat (- e)))"

text \<open>\<^verbatim>\<open>range(start, stop, -1)\<close> as the list it iterates over.\<close>

function range_down :: "int \<Rightarrow> int \<Rightarrow> int list" where
  "range_down start stop = (if stop < start then start # range_down (start - 1) stop else [])"
  by pat_completeness auto
termination
  by (relation "measure (\<lambda>(start, stop). nat (start - stop))") auto

declare range_down.simps [simp del]

section \<open>Images and drawing calls\<close>

text \<open>
  Pillow is a library, not part of the repository. An image is modelled by what the
  program determines: its mode, its size, the colour \<open>Image.new\<close> fills it with, and the
  drawing calls made on it, in order, with their arguments. Which pixels a primitive
  touches is the library's rasteriser; it is a parameter \<open>rast\<close> of \<open>pixel_at\<close> below.
\<close>

datatype color = RGB int int int | RGBA int int int int

text \<open>The slice \<^verbatim>\<open>c[:3]\<close> of a colour tuple.\<close>

fun slice3 :: "color \<Rightarrow> color" where
  "slice3 (RGBA r g b a) = RGB r g b"
| "slice3 (RGB r g b) = RGB r g b"

type_synonym box = "int \<times> int \<times> int \<times> int"

datatype shape =
    Ellipse box "color option" "color option" int
  | Arc box int int "color option" int
  | Rectangle box "color option" "color option" int

record image =
  im_mode :: string
  im_size :: "int \<times> int"
  im_color :: color
  im_drawn :: "shape list"

definition Image_new :: "string \<Rightarrow> int \<times> int \<Rightarrow> color \<Rightarrow> image" where
  "Image_new mode sz c = \<lparr>im_mode = mode, im_size = sz, im_color = c, im_drawn = []\<rparr>"

text \<open>
  \<^verbatim>\<open>draw.ellipse(xy, fill=None, outline=None, width=1)\<close>,
  \<^verbatim>\<open>draw.arc(xy, start, end, fill=None, width=1)\<close> and
  \<^verbatim>\<open>draw.rectangle(xy, fill=None, outline=None, width=1)\<close> act on the image the
  \<open>Draw\<close> object was made for.
\<close>

definition draw_ellipse :: "box \<Rightarrow> color option \<Rightarrow> color option \<Rightarrow> int \<Rightarrow> image \<Rightarrow> image" where
  "draw_ellipse xy fill outline width img = img\<lparr>im_drawn := im_drawn img @ [Ellipse xy fill outline width]\<rparr>"

definition draw_arc :: "box \<Rightarrow> int \<Rightarrow> int \<Rightarrow> color option \<Rightarrow> int \<Rightarrow> image \<Rightarrow> image" where
  "draw_arc xy start finish fill width img = img\<lparr>im_drawn := im_drawn img @ [Arc xy start finish fill width]\<rparr>"

definition draw_rectangle :: "box \<Rightarrow> color option \<Rightarrow> color option \<Rightarrow> int \<Rightarrow> image \<Rightarrow> image" where
  "draw_rectangle xy fill outline width img =
     img\<lparr>im_drawn := im_drawn img @ [Rectangle xy fill outline width]\<rparr>"

section \<open>create_icon_image\<close>

text \<open>The parameter \<^verbatim>\<open>size\<close> of the source is \<open>sz\<close> here.\<close>

definition bg_dark :: "int \<times> int \<times> int" where "bg_dark = (20, 55, 90)"
definition bg_light :: "int \<times> int \<times> int" where "bg_light = (26, 82, 118)"
definition scan_color :: color where "scan_color = RGBA 200 230 255 180"
definition chart_color :: color where "chart_color = RGBA 100 200 150 220"

text \<open>One channel of the gradient: \<^verbatim>\<open>int(d * (1 - ratio) + l * ratio)\<close>.\<close>

definition mix :: "int \<Rightarrow> int \<Rightarrow> pyfloat \<Rightarrow> int" where
  "mix d l ratio =
     py_int (fadd (fmul (float_of_int d) (fsub (float_of_int 1) ratio))
                  (fmul (float_of_int l) ratio))"

text \<open>The body of the loop \<^verbatim>\<open>for r in range(size // 2, 0, -1)\<close>, over the remaining radii.\<close>

fun gradient_loop :: "int \<Rightarrow> int \<Rightarrow> int \<Rightarrow> int list \<Rightarrow> image \<Rightarrow> py_error + image" where
  "gradient_loop sz cx cy [] img = Inr img"
| "gradient_loop sz cx cy (r # rs) img =
     (case py_truediv r (sz div 2) of
        Inl e \<Rightarrow> Inl e
      | Inr ratio \<Rightarrow>
          (let color = RGB (mix (fst bg_dark) (fst bg_light) ratio)
                           (mix (fst (snd bg_dark)) (fst (snd bg_light)) ratio)
                           (mix (snd (snd bg_dark)) (snd (snd bg_light)) ratio)
           in gradient_loop sz cx cy rs
                (draw_ellipse (cx - r, cy - r, cx + r, cy + r) (Some color) None 1 img)))"

definition draw_background :: "int \<Rightarrow> image \<Rightarrow> py_error + image" where
  "draw_background sz img =
     gradient_loop sz (sz div 2) (sz div 2) (range_down (sz div 2) 0) img"

definition draw_border :: "int \<Rightarrow> image \<Rightarrow> image" where
  "draw_border sz img =
     (let border_width = max 1 (sz div 32)
      in draw_ellipse (2, 2, sz - 3, sz - 3) None (Some (RGBA 255 255 255 100)) border_width img)"

definition draw_scan_arcs :: "int \<Rightarrow> image \<Rightarrow> image" where
  "draw_scan_arcs sz img =
     (let cx = sz div 2; cy = sz div 2;
          arc_width = max 2 (sz div 20);
          inner_r = py_int (fmul (float_of_int sz) (float_lit 25 2));
          img1 = draw_arc (cx - inner_r, cy - inner_r, cx + inner_r, cy + inner_r) (- 135) (- 45)
                   (Some (slice3 scan_color)) arc_width img;
          outer_r = py_int (fmul (float_of_int sz) (float_lit 35 2))
      in draw_arc (cx - outer_r, cy - outer_r, cx + outer_r, cy + outer_r) 45 135
           (Some (slice3 scan_color)) arc_width img1)"

text \<open>The loop \<^verbatim>\<open>for i, h in enumerate(bar_heights)\<close>, over the remaining pairs.\<close>

fun bars_loop :: "int \<Rightarrow> int \<Rightarrow> int \<Rightarrow> int \<Rightarrow> (int \<times> int) list \<Rightarrow> image \<Rightarrow> image" where
  "bars_loop bar_x bar_spacing bar_width base_y [] img = img"
| "bars_loop bar_x bar_spacing bar_width base_y ((i, h) # ihs) img =
     (let x = bar_x + i * bar_spacing
      in bars_loop bar_x bar_spacing bar_width base_y ihs
           (draw_rectangle (x, base_y - h, x + bar_width, base_y) (Some (slice3 chart_color)) None 1 img))"

definition enumerate_py :: "'a list \<Rightarrow> (int \<times> 'a) list" where
  "enumerate_py xs = zip (map int [0..<length xs]) xs"

definition draw_chart_bars :: "int \<Rightarrow> image \<Rightarrow> image" where
  "draw_chart_bars sz img =
     (let cx = sz div 2; cy = sz div 2;
          bar_width = max 2 (py_int (fmul (float_of_int sz) (float_lit 6 2)));
          bar_spacing = py_int (fmul (float_of_int sz) (float_lit 8 2));
          base_y = py_int (fadd (float_of_int cy) (fmul (float_of_int sz) (float_lit 15 2)));
          bar_x = py_int (fsub (float_of_int cx) (fmul (float_of_int sz) (float_lit 12 2)));
          bar_heights = [py_int (fmul (float_of_int sz) (float_lit 12 2)),
                         py_int (fmul (float_of_int sz) (float_lit 18 2)),
                         py_int (fmul (float_of_int sz) (float_lit 24 2))]
      in bars_loop bar_x bar_spacing bar_width base_y (enumerate_py bar_heights) img)"

definition draw_accent_dot :: "int \<Rightarrow> image \<Rightarrow> image" where
  "draw_accent_dot sz img =
     (let cx = sz div 2; cy = sz div 2
      in if 48 \<le> sz then
           (let dot_size = max 2 (py_int (fmul (float_of_int sz) (float_lit 6 2)));
                dot_x = py_int (fadd (float_of_int cx) (fmul (float_of_int sz) (float_lit 2 1)));
                dot_y = py_int (fsub (float_of_int cy) (fmul (float_of_int sz) (float_lit 25 2)))
            in draw_ellipse (dot_x, dot_y, dot_x + dot_size, dot_y + dot_size)
                 (Some (RGBA 255 255 255 200)) None 1 img)
         else img)"

definition create_icon_image :: "int \<Rightarrow> py_error + image" where
  "create_icon_image sz =
     (case draw_background sz (Image_new ''RGBA'' (sz, sz) (RGBA 0 0 0 0)) of
        Inl e \<Rightarrow> Inl e
      | Inr img \<Rightarrow>
          Inr (draw_accent_dot sz (draw_chart_bars sz (draw_scan_arcs sz (draw_border sz img)))))"


section \<open>create_ico_file and main\<close>

text \<open>
  A path is the list of its components: \<^verbatim>\<open>os.path.join(d, name)\<close> appends one,
  \<^verbatim>\<open>os.path.dirname\<close> removes the last. The file system is the set of directories and
  a map from paths to files; a file written by \<open>Image.save\<close> is recorded by the frames it
  holds, since the bytes are the library encoder's function of them.
\<close>

type_synonym path = "string list"

definition path_join :: "path \<Rightarrow> string \<Rightarrow> path" where
  "path_join d name = d @ [name]"

definition path_dirname :: "path \<Rightarrow> path" where
  "path_dirname p = butlast p"

fun path_str :: "path \<Rightarrow> string" where
  "path_str [] = []"
| "path_str [x] = x"
| "path_str (x # y # ys) = x @ ''/'' @ path_str (y # ys)"

datatype frame = Provided image | Scaled image "int \<times> int"

datatype file_content = ICO "frame list" | PNG image

record world =
  fs_dirs :: "path set"
  fs_files :: "path \<Rightarrow> file_content option"
  stdout :: "string list"

definition print :: "string \<Rightarrow> world \<Rightarrow> world" where
  "print s w = w\<lparr>stdout := stdout w @ [s]\<rparr>"

text \<open>The path itself and the directories above it.\<close>

definition ancestors :: "path \<Rightarrow> path list" where
  "ancestors p = map (\<lambda>n. take n p) [1..<Suc (length p)]"

text \<open>\<^verbatim>\<open>os.makedirs(p, exist_ok=...)\<close>.\<close>

definition os_makedirs :: "path \<Rightarrow> bool \<Rightarrow> world \<Rightarrow> py_error + world" where
  "os_makedirs p exist_ok w =
     (if fs_files w p \<noteq> None then Inl FileExistsError
      else if p \<in> fs_dirs w then (if exist_ok then Inr w else Inl FileExistsError)
      else if list_ex (\<lambda>q. fs_files w q \<noteq> None) (ancestors p) then Inl NotADirectoryError
      else Inr (w\<lparr>fs_dirs := fs_dirs w \<union> set (ancestors p)\<rparr>))"

text \<open>Opening \<open>p\<close> for writing and replacing its content.\<close>

definition write_file :: "path \<Rightarrow> file_content \<Rightarrow> world \<Rightarrow> py_error + world" where
  "write_file p f w =
     (if p \<in> fs_dirs w then Inl IsADirectoryError
      else if path_dirname p \<notin> fs_dirs w then Inl FileNotFoundError
      else Inr (w\<lparr>fs_files := (fs_files w)(p \<mapsto> f)\<rparr>))"

text \<open>
  Pillow's ICO writer is library code, outside the repository; its choice of frames is
  modelled as Pillow documents it for \<^verbatim>\<open>Image.save(fp, format='ICO', sizes=..., append_images=...)\<close>:
  \<^emph>\<open>sizes\<close> is ``a list of sizes including in this ico file; any sizes bigger than the
  original size or 255 will be ignored'', and \<^emph>\<open>append_images\<close> is ``a list of images to
  replace the scaled down versions of the image; the order of the images does not
  matter, as their use is determined by the size of each image''. The original size is
  the size of the image \<open>save\<close> is called on. The writer goes through the requested
  sizes in ascending order without duplicates, skips a size wider or higher than the
  original image or than 256, and writes for each size left the provided image of
  exactly that size, or else the original image scaled down.
\<close>

definition ico_frames :: "image \<Rightarrow> (int \<times> int) list \<Rightarrow> image list \<Rightarrow> frame list" where
  "ico_frames im szs append_images =
     (let (width, height) = im_size im;
          provided_ims = im # append_images
      in map (\<lambda>size. case find (\<lambda>p. im_size p = size) provided_ims of
                         Some p \<Rightarrow> Provided p
                       | None \<Rightarrow> Scaled im size)
           (filter (\<lambda>(w, h). \<not> (width < w \<or> height < h \<or> 256 < w \<or> 256 < h))
              (sort_key fst (sort_key snd (remdups szs)))))"

definition save_ico :: "image \<Rightarrow> path \<Rightarrow> (int \<times> int) list \<Rightarrow> image list \<Rightarrow> world \<Rightarrow> py_error + world" where
  "save_ico im p szs append_images w = write_file p (ICO (ico_frames im szs append_images)) w"

definition save_png :: "image \<Rightarrow> path \<Rightarrow> world \<Rightarrow> py_error + world" where
  "save_png im p w = write_file p (PNG im) w"

definition sizes :: "int list" where
  "sizes = [16, 32, 48, 64, 128, 256]"

text \<open>The loop \<^verbatim>\<open>for size in sizes: images.append(create_icon_image(size))\<close>.\<close>

fun render_loop :: "int list \<Rightarrow> image list \<Rightarrow> py_error + image list" where
  "render_loop [] images = Inr images"
| "render_loop (s # ss) images =
     (case create_icon_image s of
        Inl e \<Rightarrow> Inl e
      | Inr img \<Rightarrow> render_loop ss (images @ [img]))"

definition create_ico_file :: "path \<Rightarrow> world \<Rightarrow> py_error + world" where
  "create_ico_file output_path w =
     (case render_loop sizes [] of
        Inl e \<Rightarrow> Inl e
      | Inr images \<Rightarrow>
          (case images of
             [] \<Rightarrow> Inl IndexError
           | im0 # rest \<Rightarrow>
               (case save_ico im0 output_path (map (\<lambda>s. (s, s)) sizes) rest w of
                  Inl e \<Rightarrow> Inl e
                | Inr w' \<Rightarrow> Inr (print (''Icon created: '' @ path_str output_path) w'))))"

text \<open>\<open>main script_file\<close> is the script run with \<^verbatim>\<open>__file__\<close> equal to \<open>script_file\<close>.\<close>

definition main :: "path \<Rightarrow> world \<Rightarrow> py_error + world" where
  "main script_file w =
     (let resources_dir = path_join (path_dirname script_file) ''Resources''
      in case os_makedirs resources_dir True w of
           Inl e \<Rightarrow> Inl e
         | Inr w1 \<Rightarrow>
             (let output_path = path_join resources_dir ''app.ico''
              in case create_ico_file output_path w1 of
                   Inl e \<Rightarrow> Inl e
                 | Inr w2 \<Rightarrow>
                     (let preview_path = path_join resources_dir ''app_preview.png''
                      in case create_icon_image 256 of
                           Inl e \<Rightarrow> Inl e
                         | Inr preview \<Rightarrow>
                             (case save_png preview preview_path w2 of
                                Inl e \<Rightarrow> Inl e
                              | Inr w3 \<Rightarrow>
                                  Inr (print (''Preview created: '' @ path_str preview_path) w3)))))"

fun frame_size :: "frame \<Rightarrow> int \<times> int" where
  "frame_size (Provided im) = im_size im"
| "frame_size (Scaled im wh) = wh"

section \<open>Pixels\<close>

text \<open>
  On an RGBA image a drawing call stores its colour in every pixel the primitive covers
  (\<open>ImageDraw\<close> does not blend on an RGBA image); a colour given as three numbers is stored
  opaque. Which pixels a primitive covers, and with which of its colours, is the library's
  rasteriser: \<open>rast s p\<close> is the colour that drawing \<open>s\<close> stores at \<open>p\<close>, if any.
\<close>

type_synonym pixel = "int \<times> int \<times> int \<times> int"

fun getink :: "color \<Rightarrow> pixel" where
  "getink (RGB r g b) = (r, g, b, 255)"
| "getink (RGBA r g b a) = (r, g, b, a)"

type_synonym rasteriser = "shape \<Rightarrow> int \<times> int \<Rightarrow> color option"

definition pixel_at :: "rasteriser \<Rightarrow> image \<Rightarrow> int \<times> int \<Rightarrow> pixel" where
  "pixel_at rast img p =
     foldl (\<lambda>px s. case rast s p of None \<Rightarrow> px | Some c \<Rightarrow> getink c)
       (getink (im_color img)) (im_drawn img)"

fun shape_box :: "shape \<Rightarrow> box" where
  "shape_box (Ellipse xy fill outline width) = xy"
| "shape_box (Arc xy start finish fill width) = xy"
| "shape_box (Rectangle xy fill outline width) = xy"

fun shape_fill :: "shape \<Rightarrow> color option" where
  "shape_fill (Ellipse xy fill outline width) = fill"
| "shape_fill (Arc xy start finish fill width) = fill"
| "shape_fill (Rectangle xy fill outline width) = fill"

fun shape_colors :: "shape \<Rightarrow> color list" where
  "shape_colors (Ellipse xy fill outline width) = List.map_filter id [fill, outline]"
| "shape_colors (Arc xy start finish fill width) = List.map_filter id [fill]"
| "shape_colors (Rectangle xy fill outline width) = List.map_filter id [fill, outline]"

text \<open>A rasteriser that stores, for each primitive, only a colour passed to that call.\<close>

definition own_colors :: "rasteriser \<Rightarrow> bool" where
  "own_colors rast \<longleftrightarrow> (\<forall>s p c. rast s p = Some c \<longrightarrow> c \<in> set (shape_colors s))"

text \<open>The coarsest such rasteriser fills the bounding box of every primitive.\<close>

definition box_rast :: rasteriser where
  "box_rast s p =
     (case (shape_box s, p) of
        ((x0, y0, x1, y1), (x, y)) \<Rightarrow>
          (if x0 \<le> x \<and> x \<le> x1 \<and> y0 \<le> y \<and> y \<le> y1
           then (case shape_colors s of [] \<Rightarrow> None | c # cs \<Rightarrow> Some c)
           else None))"

definition box_centre :: "box \<Rightarrow> int \<times> int" where
  "box_centre xy = (case xy of (x0, y0, x1, y1) \<Rightarrow> ((x0 + x1) div 2, (y0 + y1) div 2))"

text \<open>
  A rasteriser by exact geometry. A pixel lies in the ellipse inscribed in the box
  \<open>(x0, y0, x1, y1)\<close> when its centre does, which in doubled coordinates around the centre
  of the box is \<open>b\<^sup>2 X\<^sup>2 + a\<^sup>2 Y\<^sup>2 \<le> a\<^sup>2 b\<^sup>2\<close> for \<open>a = x1 - x0\<close> and \<open>b = y1 - y0\<close>. An outline
  of width \<open>w\<close> is the part of the shape outside the box shrunk by \<open>w\<close> on every side. An
  arc is the part of such a ring between its two angles, measured from east, clockwise
  on the screen (\<open>y\<close> grows downwards); the directions of the angles are taken from a
  table of the multiples of 45 degrees, and the arc is less than a half turn.
\<close>

definition in_box :: "box \<Rightarrow> int \<times> int \<Rightarrow> bool" where
  "in_box xy p =
     (case (xy, p) of ((x0, y0, x1, y1), (x, y)) \<Rightarrow> x0 \<le> x \<and> x \<le> x1 \<and> y0 \<le> y \<and> y \<le> y1)"

definition in_ellipse :: "box \<Rightarrow> int \<times> int \<Rightarrow> bool" where
  "in_ellipse xy p =
     (case (xy, p) of
        ((x0, y0, x1, y1), (x, y)) \<Rightarrow>
          (let a = x1 - x0; b = y1 - y0; X = 2 * x - (x0 + x1); Y = 2 * y - (y0 + y1)
           in 0 \<le> a \<and> 0 \<le> b \<and> b * b * X * X + a * a * Y * Y \<le> a * a * b * b))"

definition shrink :: "int \<Rightarrow> box \<Rightarrow> box" where
  "shrink w xy = (case xy of (x0, y0, x1, y1) \<Rightarrow> (x0 + w, y0 + w, x1 - w, y1 - w))"

definition dir45 :: "int \<Rightarrow> (int \<times> int) option" where
  "dir45 angle =
     (let t = angle mod 360
      in if t = 0 then Some (1, 0) else if t = 45 then Some (1, 1)
         else if t = 90 then Some (0, 1) else if t = 135 then Some (- 1, 1)
         else if t = 180 then Some (- 1, 0) else if t = 225 then Some (- 1, - 1)
         else if t = 270 then Some (0, - 1) else if t = 315 then Some (1, - 1)
         else None)"

definition in_sector :: "int \<Rightarrow> int \<Rightarrow> box \<Rightarrow> int \<times> int \<Rightarrow> bool" where
  "in_sector start finish xy p =
     (case (dir45 start, dir45 finish, xy, p) of
        (Some (sx, sy), Some (ex, ey), (x0, y0, x1, y1), (x, y)) \<Rightarrow>
          (let dx = 2 * x - (x0 + x1); dy = 2 * y - (y0 + y1)
           in 0 \<le> sx * dy - sy * dx \<and> 0 \<le> dx * ey - dy * ex)
      | _ \<Rightarrow> False)"

fun ideal_rast :: rasteriser where
  "ideal_rast (Ellipse xy fill outline width) p =
     (if in_ellipse xy p
      then (case outline of
              None \<Rightarrow> fill
            | Some c \<Rightarrow> if in_ellipse (shrink width xy) p then fill else Some c)
      else None)"
| "ideal_rast (Arc xy start finish fill width) p =
     (if in_ellipse xy p \<and> \<not> in_ellipse (shrink width xy) p \<and> in_sector start finish xy p
      then fill else None)"
| "ideal_rast (Rectangle xy fill outline width) p =
     (if in_box xy p
      then (case outline of
              None \<Rightarrow> fill
            | Some c \<Rightarrow> if in_box (shrink width xy) p then fill else Some c)
      else None)"

section \<open>Reading the drawing calls of an icon\<close>

fun is_rectangle :: "shape \<Rightarrow> bool" where
  "is_rectangle (Rectangle xy fill outline width) = True"
| "is_rectangle s = False"

fun is_arc :: "shape \<Rightarrow> bool" where
  "is_arc (Arc xy start finish fill width) = True"
| "is_arc s = False"

definition image_colors :: "image \<Rightarrow> color list" where
  "image_colors img = concat (map shape_colors (im_drawn img))"

text \<open>
  The background loop makes the first \<open>sz div 2\<close> drawing calls, the disc of radius
  \<open>sz div 2\<close> first. The disc of radius \<open>r\<close> is call number \<open>sz div 2 - r\<close>; the discs drawn
  after it are smaller, so it stays visible on the ring between radius \<open>r - 1\<close> and \<open>r\<close>.
  The first disc is the only one that reaches the edge of the badge; the disc of radius 1
  is drawn last and lies on top at the centre.
\<close>

definition disc_at :: "int \<Rightarrow> image \<Rightarrow> int \<Rightarrow> shape" where
  "disc_at sz img r = im_drawn img ! nat (sz div 2 - r)"

definition edge_disc :: "int \<Rightarrow> image \<Rightarrow> shape" where
  "edge_disc sz img = disc_at sz img (sz div 2)"

definition centre_disc :: "int \<Rightarrow> image \<Rightarrow> shape" where
  "centre_disc sz img = disc_at sz img 1"

text \<open>The canvas after the background loop alone.\<close>

definition background :: "int \<Rightarrow> py_error + image" where
  "background sz = draw_background sz (Image_new ''RGBA'' (sz, sz) (RGBA 0 0 0 0))"

section \<open>The icon in exact arithmetic\<close>

text \<open>
  The drawing sequence as the specification words it, with every product and quotient
  taken exactly (in the rationals) and truncated where a pixel quantity is needed. These
  definitions are compared with \<open>create_icon_image\<close>, which computes in floats.
\<close>

definition trunc :: "rat \<Rightarrow> int" where
  "trunc x = (if 0 \<le> x then \<lfloor>x\<rfloor> else \<lceil>x\<rceil>)"

definition spec_lerp :: "int \<Rightarrow> int \<Rightarrow> int \<Rightarrow> int \<Rightarrow> rat" where
  "spec_lerp d l r h = of_int d * (1 - of_int r / of_int h) + of_int l * (of_int r / of_int h)"

definition spec_gradient_color :: "int \<Rightarrow> int \<Rightarrow> color" where
  "spec_gradient_color sz r =
     RGB (trunc (spec_lerp 20 26 r (sz div 2)))
         (trunc (spec_lerp 55 82 r (sz div 2)))
         (trunc (spec_lerp 90 118 r (sz div 2)))"

definition spec_disc :: "int \<Rightarrow> int \<Rightarrow> shape" where
  "spec_disc sz r =
     Ellipse (sz div 2 - r, sz div 2 - r, sz div 2 + r, sz div 2 + r)
       (Some (spec_gradient_color sz r)) None 1"

definition spec_gradient :: "int \<Rightarrow> shape list" where
  "spec_gradient sz = map (spec_disc sz) (rev [1..sz div 2])"

definition spec_border :: "int \<Rightarrow> shape" where
  "spec_border sz = Ellipse (2, 2, sz - 3, sz - 3) None (Some (RGBA 255 255 255 100)) (max 1 (sz div 32))"

definition spec_inner_arc :: "int \<Rightarrow> shape" where
  "spec_inner_arc sz =
     (let r = trunc (25 / 100 * of_int sz)
      in Arc (sz div 2 - r, sz div 2 - r, sz div 2 + r, sz div 2 + r) (- 135) (- 45)
           (Some (RGB 200 230 255)) (max 2 (sz div 20)))"

definition spec_outer_arc :: "int \<Rightarrow> shape" where
  "spec_outer_arc sz =
     (let r = trunc (35 / 100 * of_int sz)
      in Arc (sz div 2 - r, sz div 2 - r, sz div 2 + r, sz div 2 + r) 45 135
           (Some (RGB 200 230 255)) (max 2 (sz div 20)))"

definition spec_bar_height :: "int \<Rightarrow> nat \<Rightarrow> int" where
  "spec_bar_height sz i = trunc ([12 / 100, 18 / 100, 24 / 100] ! i * of_int sz)"

definition spec_bar_box :: "int \<Rightarrow> nat \<Rightarrow> box" where
  "spec_bar_box sz i =
     (let x = trunc (of_int (sz div 2) - 12 / 100 * of_int sz) + int i * trunc (8 / 100 * of_int sz);
          base_y = trunc (of_int (sz div 2) + 15 / 100 * of_int sz)
      in (x, base_y - spec_bar_height sz i, x + max 2 (trunc (6 / 100 * of_int sz)), base_y))"

definition spec_bars :: "int \<Rightarrow> shape list" where
  "spec_bars sz = map (\<lambda>i. Rectangle (spec_bar_box sz i) (Some (RGB 100 200 150)) None 1) [0, 1, 2]"

definition spec_dot_box :: "int \<Rightarrow> box" where
  "spec_dot_box sz =
     (let d = max 2 (trunc (6 / 100 * of_int sz));
          x = trunc (of_int (sz div 2) + 2 / 10 * of_int sz);
          y = trunc (of_int (sz div 2) - 25 / 100 * of_int sz)
      in (x, y, x + d, y + d))"

definition spec_dot :: "int \<Rightarrow> shape" where
  "spec_dot sz = Ellipse (spec_dot_box sz) (Some (RGBA 255 255 255 200)) None 1"

definition spec_icon :: "int \<Rightarrow> image" where
  "spec_icon sz =
     \<lparr>im_mode = ''RGBA'', im_size = (sz, sz), im_color = RGBA 0 0 0 0,
      im_drawn = spec_gradient sz @ [spec_border sz, spec_inner_arc sz, spec_outer_arc sz]
                 @ spec_bars sz @ (if 48 \<le> sz then [spec_dot sz] else [])\<rparr>"

section \<open>Sample file systems\<close>

text \<open>The empty file system with the directory of the script's resources in place.\<close>

definition resources_only :: world where
  "resources_only = \<lparr>fs_dirs = {[''Resources'']}, fs_files = Map.empty, stdout = []\<rparr>"

definition empty_world :: world where
  "empty_world = \<lparr>fs_dirs = {}, fs_files = Map.empty, stdout = []\<rparr>"

text \<open>The file system after the script has run once in the empty one.\<close>

definition first_run :: world where
  "first_run =
     \<lparr>fs_dirs = {[''Resources'']},
      fs_files = [[''Resources'', ''app.ico''] \<mapsto> ICO [Provided (spec_icon 16)],
                  [''Resources'', ''app_preview.png''] \<mapsto> PNG (spec_icon 256)],
      stdout = [''Icon created: Resources/app.ico'', ''Preview created: Resources/app_preview.png'']\<rparr>"

section \<open>Checks of the float model\<close>

lemma float_lit_006: "float_lit 6 2 = Float 1080863910568919 (- 54)"
  by code_simp

lemma float_one_tenth_plus_two_tenths:
  "fadd (float_lit 1 1) (float_lit 2 1) = Float 1351079888211149 (- 52)"
  "fadd (float_lit 1 1) (float_lit 2 1) \<noteq> float_lit 3 1"
  by code_simp+

section \<open>The rendered icons\<close>

lemma render_16: "create_icon_image 16 = Inr (spec_icon 16)"
  by code_simp

lemma render_32: "create_icon_image 32 = Inr (spec_icon 32)"
  by code_simp

lemma render_48: "create_icon_image 48 = Inr (spec_icon 48)"
  by code_simp

lemma render_64: "create_icon_image 64 = Inr (spec_icon 64)"
  by code_simp

lemma render_128: "create_icon_image 128 = Inr (spec_icon 128)"
  by code_simp

lemma render_256: "create_icon_image 256 = Inr (spec_icon 256)"
  by code_simp

lemma render_sizes: "sz \<in> set sizes \<Longrightarrow> create_icon_image sz = Inr (spec_icon sz)"
  using render_16 render_32 render_48 render_64 render_128 render_256
  by (auto simp: sizes_def)

section \<open>The background loop never fails\<close>

lemma range_down_bounds: "r \<in> set (range_down a b) \<Longrightarrow> b < r \<and> r \<le> a"
proof (induction a b rule: range_down.induct)
  case (1 start stop)
  show ?case
  proof (cases "stop < start")
    case True
    with 1 show ?thesis by (subst (asm) (2) range_down.simps) auto
  next
    case False
    with 1(2) show ?thesis by (subst (asm) range_down.simps) simp
  qed
qed

lemma gradient_loop_returns:
  "rs = [] \<or> sz div 2 \<noteq> 0 \<Longrightarrow> \<exists>img'. gradient_loop sz cx cy rs img = Inr img'"
  by (induction rs arbitrary: img) (auto simp: py_truediv_def Let_def)

lemma draw_background_returns: "\<exists>img'. draw_background sz img = Inr img'"
proof (cases "range_down (sz div 2) 0")
  case Nil
  then show ?thesis by (simp add: draw_background_def)
next
  case (Cons r rs)
  then have "r \<in> set (range_down (sz div 2) 0)" by simp
  then have "sz div 2 \<noteq> 0" using range_down_bounds by fastforce
  then show ?thesis unfolding draw_background_def by (intro gradient_loop_returns) simp
qed

lemma create_icon_image_returns: "\<exists>img. create_icon_image sz = Inr img"
  using draw_background_returns [of sz "Image_new ''RGBA'' (sz, sz) (RGBA 0 0 0 0)"]
  by (auto simp: create_icon_image_def)

lemma gradient_loop_keeps:
  "gradient_loop sz cx cy rs img = Inr img' \<Longrightarrow>
     im_mode img' = im_mode img \<and> im_size img' = im_size img \<and> im_color img' = im_color img \<and>
     (\<exists>g. im_drawn img' = im_drawn img @ g \<and>
          (\<forall>s \<in> set g. \<exists>xy r g b. s = Ellipse xy (Some (RGB r g b)) None 1))"
proof (induction rs arbitrary: img)
  case Nil
  then show ?case by simp
next
  case (Cons r rs)
  from Cons.prems obtain ratio where ratio: "py_truediv r (sz div 2) = Inr ratio"
    by (auto split: sum.splits)
  define img1 where "img1 = draw_ellipse (cx - r, cy - r, cx + r, cy + r)
     (Some (RGB (mix (fst bg_dark) (fst bg_light) ratio)
                (mix (fst (snd bg_dark)) (fst (snd bg_light)) ratio)
                (mix (snd (snd bg_dark)) (snd (snd bg_light)) ratio))) None 1 img"
  from Cons.prems ratio have "gradient_loop sz cx cy rs img1 = Inr img'"
    by (simp add: Let_def img1_def)
  from Cons.IH [OF this] show ?case
    by (auto simp: img1_def draw_ellipse_def)
qed

lemma py_truediv_zero: "py_truediv r 0 = Inl ZeroDivisionError"
  by (simp add: py_truediv_def)

text \<open>
  Claim C9. For every positive size the division \<^verbatim>\<open>r / (size // 2)\<close> never divides by
  zero: every \<open>r\<close> the loop \<^verbatim>\<open>range(size // 2, 0, -1)\<close> iterates over lies between 1 and
  \<open>size // 2\<close>, so the divisor is not zero and the division returns a float; the whole of
  \<open>create_icon_image\<close> returns an image, not an error. For size 1 the range is empty and
  the body never runs. (A zero divisor would raise: \<open>py_truediv_zero\<close>.)
\<close>

theorem no_division_by_zero:
  assumes "0 < sz"
  shows "(\<forall>r \<in> set (range_down (sz div 2) 0).
            sz div 2 \<noteq> 0 \<and> (\<exists>ratio. py_truediv r (sz div 2) = Inr ratio))
       \<and> (\<exists>img. create_icon_image sz = Inr img)
       \<and> range_down (1 div 2) 0 = []"
proof (intro conjI ballI)
  fix r assume "r \<in> set (range_down (sz div 2) 0)"
  then have "0 < r \<and> r \<le> sz div 2" by (rule range_down_bounds)
  then show "sz div 2 \<noteq> 0" by simp
  then show "\<exists>ratio. py_truediv r (sz div 2) = Inr ratio" by (simp add: py_truediv_def)
next
  show "\<exists>img. create_icon_image sz = Inr img" by (rule create_icon_image_returns)
next
  show "range_down (1 div 2) 0 = []" by (simp add: range_down.simps)
qed

theorem no_division_by_zero_witness:
  "(0::int) < 16 \<and> range_down (16 div 2) 0 = [8, 7, 6, 5, 4, 3, 2, 1]
   \<and> (16::int) div 2 \<noteq> 0 \<and> (\<exists>ratio. py_truediv 8 (16 div 2) = Inr ratio)
   \<and> (\<exists>img. create_icon_image 16 = Inr img)"
  using no_division_by_zero [of 16] by (simp add: range_down.simps)


section \<open>The canvas\<close>

lemma enumerate3: "enumerate_py [a, b, c] = [(0, a), (1, b), (2, c)]"
  by (simp add: enumerate_py_def upt_rec)

lemma bars_loop_drawn:
  "bars_loop bx bs bw by ihs img =
     img\<lparr>im_drawn := im_drawn img @
        map (\<lambda>(i, h). Rectangle (bx + i * bs, by - h, bx + i * bs + bw, by)
                          (Some (slice3 chart_color)) None 1) ihs\<rparr>"
  by (induction ihs arbitrary: img) (auto simp: draw_rectangle_def Let_def)

lemma create_icon_image_canvas:
  assumes "create_icon_image sz = Inr img"
  shows "im_mode img = ''RGBA'' \<and> im_size img = (sz, sz) \<and> im_color img = RGBA 0 0 0 0"
proof -
  from assms obtain img0 where
    bg: "draw_background sz (Image_new ''RGBA'' (sz, sz) (RGBA 0 0 0 0)) = Inr img0"
    and img: "img = draw_accent_dot sz (draw_chart_bars sz (draw_scan_arcs sz (draw_border sz img0)))"
    by (auto simp: create_icon_image_def split: sum.splits)
  from gradient_loop_keeps [OF bg [unfolded draw_background_def]]
  have "im_mode img0 = ''RGBA'' \<and> im_size img0 = (sz, sz) \<and> im_color img0 = RGBA 0 0 0 0"
    by (simp add: Image_new_def)
  then show ?thesis
    by (simp add: img draw_accent_dot_def draw_chart_bars_def draw_scan_arcs_def draw_border_def
        draw_ellipse_def draw_arc_def bars_loop_drawn Let_def)
qed

lemma create_icon_image_colors:
  assumes "create_icon_image sz = Inr img"
  shows "\<exists>g. map shape_colors (im_drawn img) =
           g @ [[RGBA 255 255 255 100], [RGB 200 230 255], [RGB 200 230 255],
                [RGB 100 200 150], [RGB 100 200 150], [RGB 100 200 150]]
             @ (if 48 \<le> sz then [[RGBA 255 255 255 200]] else [])
         \<and> (\<forall>cs \<in> set g. \<exists>r g b. cs = [RGB r g b])"
proof -
  from assms obtain img0 where
    bg: "draw_background sz (Image_new ''RGBA'' (sz, sz) (RGBA 0 0 0 0)) = Inr img0"
    and img: "img = draw_accent_dot sz (draw_chart_bars sz (draw_scan_arcs sz (draw_border sz img0)))"
    by (auto simp: create_icon_image_def split: sum.splits)
  from gradient_loop_keeps [OF bg [unfolded draw_background_def]]
  obtain g where g: "im_drawn img0 = g"
    and disc: "\<forall>s \<in> set g. \<exists>xy r g b. s = Ellipse xy (Some (RGB r g b)) None 1"
    by (auto simp: Image_new_def)
  have "\<forall>cs \<in> set (map shape_colors g). \<exists>r g b. cs = [RGB r g b]"
    using disc by (auto simp: List.map_filter_def)
  moreover have "map shape_colors (im_drawn img) =
      map shape_colors g @ [[RGBA 255 255 255 100], [RGB 200 230 255], [RGB 200 230 255],
                [RGB 100 200 150], [RGB 100 200 150], [RGB 100 200 150]]
             @ (if 48 \<le> sz then [[RGBA 255 255 255 200]] else [])"
    by (simp add: img g draw_accent_dot_def draw_chart_bars_def draw_scan_arcs_def draw_border_def
        draw_ellipse_def draw_arc_def bars_loop_drawn enumerate3 Let_def List.map_filter_def
        scan_color_def chart_color_def)
  ultimately show ?thesis by blast
qed

lemma pixel_at_blank: "pixel_at rast (Image_new mode wh c) p = getink c"
  by (simp add: pixel_at_def Image_new_def)

text \<open>
  Claim C3. For every size in \<open>{16, 32, 48, 64, 128, 256}\<close>, \<open>create_icon_image\<close> returns a
  canvas of exactly \<open>size \<times> size\<close> pixels in mode RGBA; it is the canvas
  \<open>Image.new('RGBA', (size, size), (0, 0, 0, 0))\<close> with drawing calls made on it, and before
  any drawing call every pixel of that canvas is \<open>(0, 0, 0, 0)\<close>, fully transparent,
  whatever the rasteriser.
\<close>

theorem canvas_size_and_format:
  assumes "sz \<in> set sizes"
  shows "\<exists>img. create_icon_image sz = Inr img
           \<and> im_size img = (sz, sz) \<and> im_mode img = ''RGBA''
           \<and> img = (Image_new ''RGBA'' (sz, sz) (RGBA 0 0 0 0))\<lparr>im_drawn := im_drawn img\<rparr>
           \<and> pixel_at rast (Image_new ''RGBA'' (sz, sz) (RGBA 0 0 0 0)) p = (0, 0, 0, 0)"
proof -
  obtain img where img: "create_icon_image sz = Inr img"
    using create_icon_image_returns by blast
  from create_icon_image_canvas [OF img] show ?thesis
    by (auto simp: img Image_new_def pixel_at_def)
qed

theorem canvas_size_and_format_witness:
  "(16::int) \<in> set sizes \<and> create_icon_image 16 = Inr (spec_icon 16)
   \<and> im_size (spec_icon 16) = (16, 16) \<and> im_mode (spec_icon 16) = ''RGBA''
   \<and> pixel_at box_rast (Image_new ''RGBA'' (16, 16) (RGBA 0 0 0 0)) (3, 5) = (0, 0, 0, 0)"
  using canvas_size_and_format [of 16 box_rast "(3, 5)"] render_16
  by (auto simp: sizes_def)


section \<open>The icon in exact arithmetic: its parts\<close>

lemma im_drawn_spec_icon:
  "im_drawn (spec_icon sz) =
     spec_gradient sz @ [spec_border sz, spec_inner_arc sz, spec_outer_arc sz]
       @ spec_bars sz @ (if 48 \<le> sz then [spec_dot sz] else [])"
  by (simp add: spec_icon_def)

lemma length_spec_gradient: "length (spec_gradient sz) = nat (sz div 2)"
  by (simp add: spec_gradient_def)

lemma take_spec_icon: "take (nat (sz div 2)) (im_drawn (spec_icon sz)) = spec_gradient sz"
  by (simp add: im_drawn_spec_icon length_spec_gradient)

lemma rev_upto_nth:
  assumes "n < nat h"
  shows "rev [1..h] ! n = h - int n"
proof -
  have "[1..h] ! (nat h - Suc n) = 1 + int (nat h - Suc n)"
    using assms by (intro nth_upto) linarith
  then show ?thesis using assms by (simp add: rev_nth)
qed

lemma disc_at_spec_icon:
  assumes "1 \<le> r" "r \<le> sz div 2"
  shows "disc_at sz (spec_icon sz) r = spec_disc sz r"
proof -
  have lt: "nat (sz div 2 - r) < nat (sz div 2)" using assms by simp
  then have "im_drawn (spec_icon sz) ! nat (sz div 2 - r) = spec_gradient sz ! nat (sz div 2 - r)"
    by (simp add: im_drawn_spec_icon nth_append length_spec_gradient)
  also have "\<dots> = spec_disc sz (rev [1..sz div 2] ! nat (sz div 2 - r))"
    using lt by (simp add: spec_gradient_def)
  also have "rev [1..sz div 2] ! nat (sz div 2 - r) = r"
    using lt assms by (simp add: rev_upto_nth)
  finally show ?thesis by (simp add: disc_at_def)
qed

lemma trunc_bounds: "0 \<le> x \<Longrightarrow> of_int (trunc x) \<le> x \<and> x < of_int (trunc x) + 1"
  by (simp add: trunc_def) linarith

lemma trunc_mono: "0 \<le> x \<Longrightarrow> x \<le> y \<Longrightarrow> trunc x \<le> trunc y"
  by (simp add: trunc_def floor_mono)

lemma spec_lerp_alt: "h \<noteq> 0 \<Longrightarrow> spec_lerp d l r h = of_int d + of_int (l - d) * of_int r / of_int h"
  by (simp add: spec_lerp_def field_simps)

lemma spec_lerp_endpoints: "h \<noteq> 0 \<Longrightarrow> spec_lerp d l 0 h = of_int d \<and> spec_lerp d l h h = of_int l"
  by (simp add: spec_lerp_def)

lemma spec_lerp_nonneg:
  assumes "0 \<le> d" "d \<le> l" "0 \<le> r" "0 < h"
  shows "0 \<le> spec_lerp d l r h"
proof -
  have "0 \<le> of_int (l - d) * (of_int r :: rat) / of_int h" using assms by simp
  then show ?thesis using assms by (simp add: spec_lerp_alt)
qed

lemma spec_lerp_mono:
  assumes "d \<le> l" "r \<le> r'" "0 < h"
  shows "spec_lerp d l r h \<le> spec_lerp d l r' h"
proof -
  have "of_int (l - d) * (of_int r :: rat) \<le> of_int (l - d) * of_int r'"
    using assms by (intro mult_left_mono) simp_all
  then have "of_int (l - d) * (of_int r :: rat) / of_int h \<le> of_int (l - d) * of_int r' / of_int h"
    using assms by (simp add: divide_right_mono)
  then show ?thesis using assms by (simp add: spec_lerp_alt)
qed


lemma filter_rectangle_spec_icon:
  "filter is_rectangle (im_drawn (spec_icon sz)) = spec_bars sz"
  by (simp add: im_drawn_spec_icon spec_gradient_def spec_disc_def spec_border_def
      spec_inner_arc_def spec_outer_arc_def spec_bars_def spec_dot_def Let_def filter_map o_def)

lemma filter_arc_spec_icon:
  "filter is_arc (im_drawn (spec_icon sz)) = [spec_inner_arc sz, spec_outer_arc sz]"
  by (simp add: im_drawn_spec_icon spec_gradient_def spec_disc_def spec_border_def
      spec_inner_arc_def spec_outer_arc_def spec_bars_def spec_dot_def Let_def filter_map o_def)

lemma sizes_positive: "sz \<in> set sizes \<Longrightarrow> 0 < sz div 2"
  by (auto simp: sizes_def)

lemma bars_order:
  "list_all (\<lambda>sz. trunc (12 / 100 * of_int sz) < trunc (18 / 100 * of_int sz)
                 \<and> trunc (18 / 100 * of_int sz) < trunc (24 / 100 * of_int sz)
                 \<and> 0 < trunc (8 / 100 * of_int sz)) sizes"
  by code_simp

text \<open>
  Claim C5. For every size in \<open>{16, 32, 48, 64, 128, 256}\<close> the rectangles drawn are exactly
  three, filled with the chart green \<open>(100, 200, 150)\<close> stored opaque (alpha 255). With all
  products exact and truncated, their heights are \<open>0.12\<close>, \<open>0.18\<close> and \<open>0.24\<close> times the size,
  each box is \<open>max(2, 0.06 * size)\<close> wide, the first starts at \<open>x = cx - 0.12 * size\<close>, the next
  ones follow at a spacing of \<open>0.08 * size\<close>, and all end on the baseline
  \<open>y = cy + 0.15 * size\<close>. The top edges are strictly decreasing in index order and the
  bars go from left to right. (A box \<open>(x0, y0, x1, y1)\<close> is what the program passes to
  \<open>draw.rectangle\<close>; height and width are the differences of its coordinates.)
\<close>

theorem three_chart_bars:
  assumes "sz \<in> set sizes" and "create_icon_image sz = Inr img"
  shows "let w = max 2 (trunc (6 / 100 * of_int sz));
             base = trunc (of_int (sz div 2) + 15 / 100 * of_int sz);
             x = trunc (of_int (sz div 2) - 12 / 100 * of_int sz);
             d = trunc (8 / 100 * of_int sz);
             h0 = trunc (12 / 100 * of_int sz);
             h1 = trunc (18 / 100 * of_int sz);
             h2 = trunc (24 / 100 * of_int sz)
         in filter is_rectangle (im_drawn img) =
              [Rectangle (x, base - h0, x + w, base) (Some (RGB 100 200 150)) None 1,
               Rectangle (x + d, base - h1, x + d + w, base) (Some (RGB 100 200 150)) None 1,
               Rectangle (x + 2 * d, base - h2, x + 2 * d + w, base) (Some (RGB 100 200 150)) None 1]
            \<and> getink (RGB 100 200 150) = (100, 200, 150, 255)
            \<and> base - h2 < base - h1 \<and> base - h1 < base - h0
            \<and> x < x + d \<and> x + d < x + 2 * d"
proof -
  have img: "img = spec_icon sz" using render_sizes [OF assms(1)] assms(2) by simp
  have ord: "trunc (12 / 100 * of_int sz) < trunc (18 / 100 * of_int sz)
           \<and> trunc (18 / 100 * of_int sz) < trunc (24 / 100 * of_int sz)
           \<and> 0 < trunc (8 / 100 * of_int sz)"
    using bars_order assms(1) by (simp add: list_all_iff)
  show ?thesis
    using ord
    by (simp add: img filter_rectangle_spec_icon spec_bars_def spec_bar_box_def
        spec_bar_height_def Let_def)
qed

theorem three_chart_bars_witness:
  "(16::int) \<in> set sizes \<and> create_icon_image 16 = Inr (spec_icon 16)
   \<and> filter is_rectangle (im_drawn (spec_icon 16)) =
       [Rectangle (6, 9, 8, 10) (Some (RGB 100 200 150)) None 1,
        Rectangle (7, 8, 9, 10) (Some (RGB 100 200 150)) None 1,
        Rectangle (8, 7, 10, 10) (Some (RGB 100 200 150)) None 1]"
proof -
  have s: "(16::int) \<in> set sizes" by (simp add: sizes_def)
  have e: "filter is_rectangle (im_drawn (spec_icon 16)) =
       [Rectangle (6, 9, 8, 10) (Some (RGB 100 200 150)) None 1,
        Rectangle (7, 8, 9, 10) (Some (RGB 100 200 150)) None 1,
        Rectangle (8, 7, 10, 10) (Some (RGB 100 200 150)) None 1]"
    by code_simp
  show ?thesis
    using three_chart_bars [OF s render_16] s render_16 e by simp
qed

text \<open>
  Claim C8. For every size in \<open>{16, 32, 48, 64, 128, 256}\<close> the arcs drawn are exactly two,
  both in the scan blue \<open>(200, 230, 255)\<close> stored opaque and both of width
  \<open>max(2, size // 20)\<close>: the inner one in the box of radius \<open>0.25 * size\<close> around the centre
  from \<open>-135\<close> to \<open>-45\<close> degrees, the outer one in the box of radius \<open>0.35 * size\<close> (truncated)
  from \<open>45\<close> to \<open>135\<close> degrees. The angles are passed to \<open>draw.arc\<close>, which measures them
  from east, clockwise.
\<close>

theorem two_scan_arcs:
  assumes "sz \<in> set sizes" and "create_icon_image sz = Inr img"
  shows "let cx = sz div 2; cy = sz div 2;
             w = max 2 (sz div 20);
             inner_r = trunc (25 / 100 * of_int sz);
             outer_r = trunc (35 / 100 * of_int sz)
         in filter is_arc (im_drawn img) =
              [Arc (cx - inner_r, cy - inner_r, cx + inner_r, cy + inner_r) (- 135) (- 45)
                 (Some (RGB 200 230 255)) w,
               Arc (cx - outer_r, cy - outer_r, cx + outer_r, cy + outer_r) 45 135
                 (Some (RGB 200 230 255)) w]
            \<and> getink (RGB 200 230 255) = (200, 230, 255, 255)"
proof -
  have img: "img = spec_icon sz" using render_sizes [OF assms(1)] assms(2) by simp
  show ?thesis
    by (simp add: img filter_arc_spec_icon spec_inner_arc_def spec_outer_arc_def Let_def)
qed

theorem two_scan_arcs_witness:
  "(48::int) \<in> set sizes \<and> create_icon_image 48 = Inr (spec_icon 48)
   \<and> filter is_arc (im_drawn (spec_icon 48)) =
       [Arc (12, 12, 36, 36) (- 135) (- 45) (Some (RGB 200 230 255)) 2,
        Arc (8, 8, 40, 40) 45 135 (Some (RGB 200 230 255)) 2]"
proof -
  have s: "(48::int) \<in> set sizes" by (simp add: sizes_def)
  have e: "filter is_arc (im_drawn (spec_icon 48)) =
       [Arc (12, 12, 36, 36) (- 135) (- 45) (Some (RGB 200 230 255)) 2,
        Arc (8, 8, 40, 40) 45 135 (Some (RGB 200 230 255)) 2]"
    by code_simp
  show ?thesis
    using two_scan_arcs [OF s render_48] s render_48 e by simp
qed


section \<open>The background gradient\<close>

lemma edge_color:
  "list_all (\<lambda>sz. spec_gradient_color sz (sz div 2) = RGB 26 82 118) sizes"
  by code_simp

lemma centre_color:
  "list_all (\<lambda>sz. spec_gradient_color sz 1 =
      RGB (20 + 6 div (sz div 2)) (55 + 27 div (sz div 2)) (90 + 28 div (sz div 2))) sizes"
  by code_simp

text \<open>
  Claim C1, as amended. For every size in \<open>{16, 32, 48, 64, 128, 256}\<close> the first \<open>size // 2\<close>
  drawing calls are the filled circles of radius \<open>r = size // 2\<close> down to 1 around the
  centre, largest first, and the colour of the circle of radius \<open>r\<close> is, channel by
  channel, the exact linear interpolation \<open>dark * (1 - ratio) + teal * ratio\<close> at
  \<open>ratio = r / (size // 2)\<close> between dark blue \<open>(20, 55, 90)\<close> and teal \<open>(26, 82, 118)\<close>,
  truncated. The ratio is 1 for the largest circle, so the gradient is teal at the edge;
  the innermost circle, of radius 1, has the colour
  \<open>(20 + 6 div h, 55 + 27 div h, 90 + 28 div h)\<close> for \<open>h = size // 2\<close>, which is dark blue
  itself for the sizes 128 and 256 and within 3 of it for the others.
\<close>

theorem gradient_discs:
  assumes "sz \<in> set sizes" and "create_icon_image sz = Inr img"
  shows "let cx = sz div 2; cy = sz div 2; h = sz div 2
         in take (nat h) (im_drawn img) =
              map (\<lambda>r. Ellipse (cx - r, cy - r, cx + r, cy + r)
                          (Some (RGB (trunc (spec_lerp 20 26 r h))
                                     (trunc (spec_lerp 55 82 r h))
                                     (trunc (spec_lerp 90 118 r h)))) None 1)
                  (rev [1..h])
            \<and> shape_fill (edge_disc sz img) = Some (RGB 26 82 118)
            \<and> shape_fill (centre_disc sz img) =
                Some (RGB (20 + 6 div h) (55 + 27 div h) (90 + 28 div h))"
proof -
  have img: "img = spec_icon sz" using render_sizes [OF assms(1)] assms(2) by simp
  have h: "1 \<le> sz div 2" using sizes_positive [OF assms(1)] by simp
  have e: "spec_gradient_color sz (sz div 2) = RGB 26 82 118"
    using edge_color assms(1) by (simp add: list_all_iff)
  have c: "spec_gradient_color sz 1 =
      RGB (20 + 6 div (sz div 2)) (55 + 27 div (sz div 2)) (90 + 28 div (sz div 2))"
    using centre_color assms(1) by (simp add: list_all_iff)
  have "take (nat (sz div 2)) (im_drawn img) = map (spec_disc sz) (rev [1..sz div 2])"
    by (simp add: img take_spec_icon spec_gradient_def)
  moreover have "shape_fill (edge_disc sz img) = Some (RGB 26 82 118)"
    using h by (simp add: img edge_disc_def disc_at_spec_icon spec_disc_def e)
  moreover have "shape_fill (centre_disc sz img) =
      Some (RGB (20 + 6 div (sz div 2)) (55 + 27 div (sz div 2)) (90 + 28 div (sz div 2)))"
    using h by (simp add: img centre_disc_def disc_at_spec_icon spec_disc_def c)
  ultimately show ?thesis
    by (simp add: Let_def spec_disc_def spec_gradient_color_def)
qed

theorem gradient_discs_witness:
  "(16::int) \<in> set sizes \<and> create_icon_image 16 = Inr (spec_icon 16)
   \<and> map shape_box (take (nat (16 div 2)) (im_drawn (spec_icon 16))) =
       [(0, 0, 16, 16), (1, 1, 15, 15), (2, 2, 14, 14), (3, 3, 13, 13),
        (4, 4, 12, 12), (5, 5, 11, 11), (6, 6, 10, 10), (7, 7, 9, 9)]
   \<and> shape_fill (edge_disc 16 (spec_icon 16)) = Some (RGB 26 82 118)
   \<and> shape_fill (centre_disc 16 (spec_icon 16)) = Some (RGB 20 58 93)"
proof -
  have s: "(16::int) \<in> set sizes" by (simp add: sizes_def)
  have e: "map shape_box (take (nat (16 div 2)) (im_drawn (spec_icon 16))) =
       [(0, 0, 16, 16), (1, 1, 15, 15), (2, 2, 14, 14), (3, 3, 13, 13),
        (4, 4, 12, 12), (5, 5, 11, 11), (6, 6, 10, 10), (7, 7, 9, 9)]"
    by code_simp
  show ?thesis
    using gradient_discs [OF s render_16] s render_16 e by (simp add: Let_def)
qed

text \<open>
  The claim C1 as it was stated ends in ``teal at the center and dark blue at the edge''.
  At size 16 the disc that reaches the edge is teal, not dark blue, and the disc at the
  centre is \<open>(20, 58, 93)\<close>, not teal.
\<close>

theorem gradient_direction_counterexample:
  "shape_fill (edge_disc 16 (projr (create_icon_image 16))) = Some (RGB 26 82 118)
   \<and> shape_fill (edge_disc 16 (projr (create_icon_image 16))) \<noteq> Some (RGB 20 55 90)
   \<and> shape_fill (centre_disc 16 (projr (create_icon_image 16))) = Some (RGB 20 58 93)
   \<and> shape_fill (centre_disc 16 (projr (create_icon_image 16))) \<noteq> Some (RGB 26 82 118)"
proof -
  have "shape_fill (edge_disc 16 (spec_icon 16)) = Some (RGB 26 82 118)"
    and "shape_fill (centre_disc 16 (spec_icon 16)) = Some (RGB 20 58 93)"
    by code_simp+
  then show ?thesis by (simp add: render_16)
qed

text \<open>
  Claim C2. For every size in \<open>{16, 32, 48, 64, 128, 256}\<close>, going along a radius from the
  centre (\<open>r = 1\<close>) out to the edge of the disc (\<open>r = size // 2\<close>): the colour found at
  radius \<open>r\<close> is that of the circle of radius \<open>r\<close>; each of its channels \<open>c\<close> is the
  truncation of the exact linear interpolation \<open>L\<close> between the endpoint colours, that is
  \<open>c \<le> L < c + 1\<close>, where the interpolation is dark blue at ratio 0 and teal at ratio 1;
  and the blue channel at any radius further out is at least the blue channel at \<open>r\<close>.
\<close>

theorem gradient_monotone_and_linear:
  assumes "sz \<in> set sizes" and "create_icon_image sz = Inr img"
    and "1 \<le> r" and "r \<le> sz div 2"
  shows "\<exists>cr cg cb.
           disc_at sz img r =
             Ellipse (sz div 2 - r, sz div 2 - r, sz div 2 + r, sz div 2 + r)
               (Some (RGB cr cg cb)) None 1
         \<and> of_int cr \<le> spec_lerp 20 26 r (sz div 2) \<and> spec_lerp 20 26 r (sz div 2) < of_int cr + 1
         \<and> of_int cg \<le> spec_lerp 55 82 r (sz div 2) \<and> spec_lerp 55 82 r (sz div 2) < of_int cg + 1
         \<and> of_int cb \<le> spec_lerp 90 118 r (sz div 2) \<and> spec_lerp 90 118 r (sz div 2) < of_int cb + 1
         \<and> (\<forall>r'. r \<le> r' \<and> r' \<le> sz div 2 \<longrightarrow>
               (\<exists>cr' cg' cb'. shape_fill (disc_at sz img r') = Some (RGB cr' cg' cb') \<and> cb \<le> cb'))
         \<and> spec_lerp 20 26 0 (sz div 2) = 20 \<and> spec_lerp 20 26 (sz div 2) (sz div 2) = 26
         \<and> spec_lerp 55 82 0 (sz div 2) = 55 \<and> spec_lerp 55 82 (sz div 2) (sz div 2) = 82
         \<and> spec_lerp 90 118 0 (sz div 2) = 90 \<and> spec_lerp 90 118 (sz div 2) (sz div 2) = 118"
proof -
  have img: "img = spec_icon sz" using render_sizes [OF assms(1)] assms(2) by simp
  have h: "0 < sz div 2" using sizes_positive [OF assms(1)] .
  have r0: "0 \<le> r" using assms(3) by simp
  have d: "disc_at sz img r = spec_disc sz r"
    using assms(3,4) by (simp add: img disc_at_spec_icon)
  have n: "0 \<le> spec_lerp 20 26 r (sz div 2)" "0 \<le> spec_lerp 55 82 r (sz div 2)"
    "0 \<le> spec_lerp 90 118 r (sz div 2)"
    using h r0 by (simp_all add: spec_lerp_nonneg)
  have mono: "\<exists>cr' cg' cb'. shape_fill (disc_at sz img r') = Some (RGB cr' cg' cb')
      \<and> trunc (spec_lerp 90 118 r (sz div 2)) \<le> cb'" if "r \<le> r' \<and> r' \<le> sz div 2" for r'
  proof -
    have "disc_at sz img r' = spec_disc sz r'"
      using that assms(3) by (simp add: img disc_at_spec_icon)
    moreover have "trunc (spec_lerp 90 118 r (sz div 2)) \<le> trunc (spec_lerp 90 118 r' (sz div 2))"
      using that h n(3) by (intro trunc_mono spec_lerp_mono) simp_all
    ultimately show ?thesis by (simp add: spec_disc_def spec_gradient_color_def)
  qed
  have ends: "spec_lerp 20 26 0 (sz div 2) = 20 \<and> spec_lerp 20 26 (sz div 2) (sz div 2) = 26
         \<and> spec_lerp 55 82 0 (sz div 2) = 55 \<and> spec_lerp 55 82 (sz div 2) (sz div 2) = 82
         \<and> spec_lerp 90 118 0 (sz div 2) = 90 \<and> spec_lerp 90 118 (sz div 2) (sz div 2) = 118"
    using h spec_lerp_endpoints [of "sz div 2"] by simp
  show ?thesis
    using d trunc_bounds [OF n(1)] trunc_bounds [OF n(2)] trunc_bounds [OF n(3)] mono ends
    by (simp add: spec_disc_def spec_gradient_color_def)
qed

theorem gradient_monotone_and_linear_witness:
  "(16::int) \<in> set sizes \<and> create_icon_image 16 = Inr (spec_icon 16)
   \<and> (1::int) \<le> 3 \<and> (3::int) \<le> 16 div 2
   \<and> disc_at 16 (spec_icon 16) 3 = Ellipse (5, 5, 11, 11) (Some (RGB 22 65 100)) None 1
   \<and> disc_at 16 (spec_icon 16) 4 = Ellipse (4, 4, 12, 12) (Some (RGB 23 68 104)) None 1
   \<and> spec_lerp 90 118 3 (16 div 2) = 201 / 2"
proof -
  have s: "(16::int) \<in> set sizes" by (simp add: sizes_def)
  have e: "disc_at 16 (spec_icon 16) 3 = Ellipse (5, 5, 11, 11) (Some (RGB 22 65 100)) None 1"
    "disc_at 16 (spec_icon 16) 4 = Ellipse (4, 4, 12, 12) (Some (RGB 23 68 104)) None 1"
    "spec_lerp 90 118 3 (16 div 2) = 201 / 2"
    by code_simp+
  show ?thesis
    using gradient_monotone_and_linear [OF s render_16, of 3] s e render_16 by simp
qed


section \<open>The accent dot\<close>

lemma pixel_at_last:
  assumes "im_drawn img \<noteq> []" and "rast (last (im_drawn img)) p = Some c"
  shows "pixel_at rast img p = getink c"
proof -
  from assms(1) obtain xs s where xs: "im_drawn img = xs @ [s]"
    by (metis append_butlast_last_id)
  with assms(2) show ?thesis by (simp add: pixel_at_def)
qed

lemma foldl_paint_colors:
  assumes "own_colors rast"
  shows "foldl (\<lambda>px s. case rast s p of None \<Rightarrow> px | Some c \<Rightarrow> getink c) px0 xs
           \<in> insert px0 (getink ` set (concat (map shape_colors xs)))"
proof (induction xs rule: rev_induct)
  case Nil
  then show ?case by simp
next
  case (snoc s xs)
  show ?case
  proof (cases "rast s p")
    case None
    with snoc show ?thesis by auto
  next
    case (Some c)
    with assms have "c \<in> set (shape_colors s)" unfolding own_colors_def by blast
    with Some show ?thesis by auto
  qed
qed

lemma pixel_at_colors:
  "own_colors rast \<Longrightarrow>
     pixel_at rast img p \<in> insert (getink (im_color img)) (getink ` set (image_colors img))"
  unfolding pixel_at_def image_colors_def by (rule foldl_paint_colors)

lemma own_colors_box_rast: "own_colors box_rast"
  by (auto simp: own_colors_def box_rast_def split: list.splits if_splits prod.splits)

lemma image_colors_cases:
  assumes "create_icon_image sz = Inr img" and "c \<in> set (image_colors img)"
  shows "(\<exists>r g b. c = RGB r g b) \<or> c = RGBA 255 255 255 100 \<or> (48 \<le> sz \<and> c = RGBA 255 255 255 200)"
proof -
  from create_icon_image_colors [OF assms(1)] obtain g where
    g: "map shape_colors (im_drawn img) =
           g @ [[RGBA 255 255 255 100], [RGB 200 230 255], [RGB 200 230 255],
                [RGB 100 200 150], [RGB 100 200 150], [RGB 100 200 150]]
             @ (if 48 \<le> sz then [[RGBA 255 255 255 200]] else [])"
    and d: "\<forall>cs \<in> set g. \<exists>r g b. cs = [RGB r g b]"
    by blast
  from assms(2) have "c \<in> set (concat g) \<or> c = RGBA 255 255 255 100 \<or> c = RGB 200 230 255
      \<or> c = RGB 100 200 150 \<or> (48 \<le> sz \<and> c = RGBA 255 255 255 200)"
    unfolding image_colors_def g by (auto split: if_splits)
  moreover have "\<exists>r g b. c = RGB r g b" if "c \<in> set (concat g)"
    using that d by fastforce
  ultimately show ?thesis by blast
qed

lemma dot_color_drawn:
  assumes "create_icon_image sz = Inr img"
  shows "RGBA 255 255 255 200 \<in> set (image_colors img) \<longleftrightarrow> 48 \<le> sz"
proof
  assume "RGBA 255 255 255 200 \<in> set (image_colors img)"
  from image_colors_cases [OF assms this] show "48 \<le> sz" by simp
next
  assume sz: "48 \<le> sz"
  from create_icon_image_colors [OF assms] obtain g where
    g: "map shape_colors (im_drawn img) =
           g @ [[RGBA 255 255 255 100], [RGB 200 230 255], [RGB 200 230 255],
                [RGB 100 200 150], [RGB 100 200 150], [RGB 100 200 150]]
             @ (if 48 \<le> sz then [[RGBA 255 255 255 200]] else [])"
    by blast
  show "RGBA 255 255 255 200 \<in> set (image_colors img)"
    unfolding image_colors_def g using sz by simp
qed

lemma dot_position:
  "list_all (\<lambda>sz. 48 \<le> sz \<longrightarrow>
      sz div 2 < trunc (of_int (sz div 2) + 2 / 10 * of_int sz)
      \<and> trunc (of_int (sz div 2) - 25 / 100 * of_int sz) + max 2 (trunc (6 / 100 * of_int sz)) < sz div 2) sizes"
  by code_simp

lemma own_colors_ideal_rast: "own_colors ideal_rast"
  unfolding own_colors_def
proof (intro allI impI)
  fix s p c assume "ideal_rast s p = Some c"
  then show "c \<in> set (shape_colors s)"
    by (cases s) (auto simp: List.map_filter_def split: if_splits option.splits)
qed

lemma background_16:
  "background 16 = Inr ((Image_new ''RGBA'' (16, 16) (RGBA 0 0 0 0))\<lparr>im_drawn := spec_gradient 16\<rparr>)"
  by code_simp

lemma background_32:
  "background 32 = Inr ((Image_new ''RGBA'' (32, 32) (RGBA 0 0 0 0))\<lparr>im_drawn := spec_gradient 32\<rparr>)"
  by code_simp

lemma dot_centre_pixels:
  "box_centre (spec_dot_box 16) = (12, 5)"
  "box_centre (spec_dot_box 32) = (23, 9)"
  "pixel_at ideal_rast (spec_icon 16) (12, 5) = (255, 255, 255, 100)"
  "pixel_at ideal_rast ((Image_new ''RGBA'' (16, 16) (RGBA 0 0 0 0))\<lparr>im_drawn := spec_gradient 16\<rparr>) (12, 5)
     = (23, 71, 107, 255)"
  "pixel_at ideal_rast (spec_icon 32) (23, 9) = (23, 71, 107, 255)"
  "pixel_at ideal_rast ((Image_new ''RGBA'' (32, 32) (RGBA 0 0 0 0))\<lparr>im_drawn := spec_gradient 32\<rparr>) (23, 9)
     = (23, 71, 107, 255)"
  by code_simp+

lemma dot_centre_filled:
  "list_all (\<lambda>sz. 48 \<le> sz \<longrightarrow>
      ideal_rast (spec_dot sz) (box_centre (spec_dot_box sz)) = Some (RGBA 255 255 255 200)) sizes"
  by code_simp

text \<open>
  Claim C4, as amended. The accent dot is drawn exactly when \<open>size \<ge> 48\<close>: its colour, the
  translucent white \<open>(255, 255, 255, 200)\<close>, is among the colours of the drawing calls if and
  only if \<open>48 \<le> size\<close> (for every size). For the sizes 48, 64, 128 and 256 the dot is the
  last drawing call, a filled ellipse in the box with corner
  \<open>(cx + 0.2 * size, cy - 0.25 * size)\<close> and side \<open>max(2, 0.06 * size)\<close> (exact products,
  truncated), which lies right of and above the centre; a rasteriser that fills the centre
  of that ellipse, as the exact one does, leaves the pixel there at \<open>(255, 255, 255, 200)\<close>,
  white and not transparent. For a size below 48 the dot is absent: under any rasteriser
  that stores only colours of the calls, no pixel has the dot's value, neither the one at
  the computed dot centre nor any other; a pixel is untouched and transparent, or the
  border's \<open>(255, 255, 255, 100)\<close>, or an opaque colour of the gradient, the arcs or the
  bars. With exact geometry the pixel at the computed dot centre is the one the
  background loop left there at size 32, where the centre is \<open>(23, 9)\<close>; at size 16 the
  centre \<open>(12, 5)\<close> lies on the border ring and the pixel is the border's
  \<open>(255, 255, 255, 100)\<close>.
\<close>

theorem accent_dot_presence:
  assumes "create_icon_image sz = Inr img"
  shows "(RGBA 255 255 255 200 \<in> set (image_colors img) \<longleftrightarrow> 48 \<le> sz)
       \<and> (sz \<in> set sizes \<and> 48 \<le> sz \<longrightarrow>
            (let d = max 2 (trunc (6 / 100 * of_int sz));
                 x = trunc (of_int (sz div 2) + 2 / 10 * of_int sz);
                 y = trunc (of_int (sz div 2) - 25 / 100 * of_int sz)
             in last (im_drawn img) = Ellipse (x, y, x + d, y + d) (Some (RGBA 255 255 255 200)) None 1
                \<and> sz div 2 < x \<and> y + d < sz div 2
                \<and> (rast (last (im_drawn img)) (box_centre (x, y, x + d, y + d)) = Some (RGBA 255 255 255 200)
                     \<longrightarrow> pixel_at rast img (box_centre (x, y, x + d, y + d)) = (255, 255, 255, 200))
                \<and> pixel_at ideal_rast img (box_centre (x, y, x + d, y + d)) = (255, 255, 255, 200)))
       \<and> (sz < 48 \<and> own_colors rast \<longrightarrow>
            pixel_at rast img p \<noteq> (255, 255, 255, 200)
            \<and> pixel_at rast img (box_centre (spec_dot_box sz)) \<noteq> (255, 255, 255, 200)
            \<and> (pixel_at rast img p = (0, 0, 0, 0) \<or> pixel_at rast img p = (255, 255, 255, 100)
                \<or> (\<exists>r g b. pixel_at rast img p = (r, g, b, 255))))
       \<and> (sz = 32 \<longrightarrow>
            box_centre (spec_dot_box sz) = (23, 9)
            \<and> pixel_at ideal_rast img (23, 9) = pixel_at ideal_rast (projr (background sz)) (23, 9))
       \<and> (sz = 16 \<longrightarrow>
            box_centre (spec_dot_box sz) = (12, 5)
            \<and> pixel_at ideal_rast img (12, 5) = (255, 255, 255, 100))"
proof -
  have c1: "RGBA 255 255 255 200 \<in> set (image_colors img) \<longleftrightarrow> 48 \<le> sz"
    by (rule dot_color_drawn [OF assms])
  have c2: "let d = max 2 (trunc (6 / 100 * of_int sz));
            x = trunc (of_int (sz div 2) + 2 / 10 * of_int sz);
            y = trunc (of_int (sz div 2) - 25 / 100 * of_int sz)
        in last (im_drawn img) = Ellipse (x, y, x + d, y + d) (Some (RGBA 255 255 255 200)) None 1
           \<and> sz div 2 < x \<and> y + d < sz div 2
           \<and> (rast (last (im_drawn img)) (box_centre (x, y, x + d, y + d)) = Some (RGBA 255 255 255 200)
                \<longrightarrow> pixel_at rast img (box_centre (x, y, x + d, y + d)) = (255, 255, 255, 200))
           \<and> pixel_at ideal_rast img (box_centre (x, y, x + d, y + d)) = (255, 255, 255, 200)"
    if a: "sz \<in> set sizes \<and> 48 \<le> sz"
  proof -
    have img: "img = spec_icon sz" using a render_sizes assms by simp
    have pos: "sz div 2 < trunc (of_int (sz div 2) + 2 / 10 * of_int sz)
        \<and> trunc (of_int (sz div 2) - 25 / 100 * of_int sz) + max 2 (trunc (6 / 100 * of_int sz)) < sz div 2"
      using dot_position a by (simp add: list_all_iff)
    have l: "last (im_drawn img) = spec_dot sz" "im_drawn img \<noteq> []"
      using a by (simp_all add: img im_drawn_spec_icon)
    have f: "ideal_rast (last (im_drawn img)) (box_centre (spec_dot_box sz)) = Some (RGBA 255 255 255 200)"
      using dot_centre_filled a by (simp add: list_all_iff l)
    have i: "pixel_at ideal_rast img (box_centre (spec_dot_box sz)) = (255, 255, 255, 200)"
      using pixel_at_last [OF l(2), of ideal_rast "box_centre (spec_dot_box sz)" "RGBA 255 255 255 200"] f
      by simp
    show ?thesis
      using pos l i pixel_at_last [OF l(2), of rast _ "RGBA 255 255 255 200"]
      by (auto simp: Let_def spec_dot_def spec_dot_box_def)
  qed
  have c3: "pixel_at rast img q \<noteq> (255, 255, 255, 200)
            \<and> (pixel_at rast img q = (0, 0, 0, 0) \<or> pixel_at rast img q = (255, 255, 255, 100)
                \<or> (\<exists>r g b. pixel_at rast img q = (r, g, b, 255)))"
    if a: "sz < 48 \<and> own_colors rast" for q
  proof -
    have c: "im_color img = RGBA 0 0 0 0" using create_icon_image_canvas [OF assms] by simp
    from pixel_at_colors [of rast img q] a
    have "pixel_at rast img q = (0, 0, 0, 0) \<or> (\<exists>c \<in> set (image_colors img). pixel_at rast img q = getink c)"
      by (auto simp: c)
    then have "pixel_at rast img q = (0, 0, 0, 0) \<or> pixel_at rast img q = (255, 255, 255, 100)
            \<or> (\<exists>r g b. pixel_at rast img q = (r, g, b, 255))"
    proof
      assume "pixel_at rast img q = (0, 0, 0, 0)"
      then show ?thesis by simp
    next
      assume "\<exists>c \<in> set (image_colors img). pixel_at rast img q = getink c"
      then obtain c where c: "c \<in> set (image_colors img)" "pixel_at rast img q = getink c" by blast
      from image_colors_cases [OF assms c(1)] a c(2) show ?thesis by auto
    qed
    then show ?thesis by auto
  qed
  have c4: "box_centre (spec_dot_box sz) = (23, 9)
            \<and> pixel_at ideal_rast img (23, 9) = pixel_at ideal_rast (projr (background sz)) (23, 9)"
    if "sz = 32"
    using that assms by (auto simp: render_32 background_32 dot_centre_pixels)
  have c5: "box_centre (spec_dot_box sz) = (12, 5)
            \<and> pixel_at ideal_rast img (12, 5) = (255, 255, 255, 100)"
    if "sz = 16"
    using that assms by (auto simp: render_16 dot_centre_pixels)
  show ?thesis
    using c1 c2 c3 [of p] c3 [of "box_centre (spec_dot_box sz)"] c4 c5 by blast
qed

theorem accent_dot_presence_witness:
  "create_icon_image 48 = Inr (spec_icon 48) \<and> (48::int) \<in> set sizes \<and> (48::int) \<le> 48
   \<and> last (im_drawn (spec_icon 48)) = Ellipse (33, 12, 35, 14) (Some (RGBA 255 255 255 200)) None 1
   \<and> ideal_rast (last (im_drawn (spec_icon 48))) (34, 13) = Some (RGBA 255 255 255 200)
   \<and> pixel_at ideal_rast (spec_icon 48) (34, 13) = (255, 255, 255, 200)
   \<and> create_icon_image 16 = Inr (spec_icon 16) \<and> (16::int) < 48 \<and> own_colors ideal_rast
   \<and> pixel_at ideal_rast (spec_icon 16) (12, 5) = (255, 255, 255, 100)
   \<and> create_icon_image 32 = Inr (spec_icon 32)
   \<and> pixel_at ideal_rast (spec_icon 32) (23, 9) = (23, 71, 107, 255)"
proof -
  have s: "(48::int) \<in> set sizes" by (simp add: sizes_def)
  have e: "last (im_drawn (spec_icon 48)) = Ellipse (33, 12, 35, 14) (Some (RGBA 255 255 255 200)) None 1"
    "ideal_rast (last (im_drawn (spec_icon 48))) (34, 13) = Some (RGBA 255 255 255 200)"
    "pixel_at ideal_rast (spec_icon 48) (34, 13) = (255, 255, 255, 200)"
    by code_simp+
  show ?thesis
    using accent_dot_presence [OF render_48, of ideal_rast "(34, 13)"]
      accent_dot_presence [OF render_16, of ideal_rast "(12, 5)"]
      accent_dot_presence [OF render_32, of ideal_rast "(23, 9)"]
      s e render_48 render_16 render_32 own_colors_ideal_rast dot_centre_pixels
    by simp
qed


text \<open>
  The claim C4 as it was stated says of the sizes 16 and 32 that the pixel at the computed
  dot centre is background-coloured. At size 16 that centre is \<open>(12, 5)\<close>; with exact
  geometry the border ring passes through it, so the pixel of the icon is the border's
  translucent white, while the background loop alone leaves \<open>(23, 71, 107, 255)\<close> there.
\<close>

theorem dot_centre_pixel_counterexample:
  "box_centre (spec_dot_box 16) = (12, 5)
   \<and> pixel_at ideal_rast (projr (create_icon_image 16)) (12, 5) = (255, 255, 255, 100)
   \<and> pixel_at ideal_rast (projr (background 16)) (12, 5) = (23, 71, 107, 255)
   \<and> pixel_at ideal_rast (projr (create_icon_image 16)) (12, 5)
       \<noteq> pixel_at ideal_rast (projr (background 16)) (12, 5)"
  by (simp add: render_16 background_16 dot_centre_pixels)



section \<open>The files written\<close>

lemma im_size_spec_icon: "im_size (spec_icon sz) = (sz, sz)"
  by (simp add: spec_icon_def)

lemma render_loop_sizes: "render_loop sizes [] = Inr (map spec_icon sizes)"
  by (simp add: sizes_def render_16 render_32 render_48 render_64 render_128 render_256)

lemma ico_frames_smallest_first:
  "ico_frames (spec_icon 16) (map (\<lambda>s. (s, s)) sizes)
       [spec_icon 32, spec_icon 48, spec_icon 64, spec_icon 128, spec_icon 256]
     = [Provided (spec_icon 16)]"
  by (simp add: ico_frames_def sizes_def im_size_spec_icon)

lemma create_ico_file_eq:
  "create_ico_file p w =
     (case write_file p (ICO [Provided (spec_icon 16)]) w of
        Inl e \<Rightarrow> Inl e
      | Inr w' \<Rightarrow> Inr (print (''Icon created: '' @ path_str p) w'))"
proof -
  have "map spec_icon sizes =
      spec_icon 16 # [spec_icon 32, spec_icon 48, spec_icon 64, spec_icon 128, spec_icon 256]"
    by (simp add: sizes_def)
  then show ?thesis
    by (simp add: create_ico_file_def render_loop_sizes save_ico_def ico_frames_smallest_first)
qed

lemma write_file_Inr:
  "write_file p f w = Inr w' \<longleftrightarrow>
     p \<notin> fs_dirs w \<and> path_dirname p \<in> fs_dirs w \<and> w' = w\<lparr>fs_files := (fs_files w)(p \<mapsto> f)\<rparr>"
  by (auto simp: write_file_def)

lemma self_in_ancestors: "p \<noteq> [] \<Longrightarrow> p \<in> set (ancestors p)"
proof -
  assume "p \<noteq> []"
  then have "length p \<in> {1..<Suc (length p)}" by (cases p) auto
  then have "take (length p) p \<in> set (ancestors p)"
    unfolding ancestors_def by (metis (no_types, lifting) image_eqI set_map set_upt)
  then show ?thesis by simp
qed

lemma ancestors_length: "q \<in> set (ancestors p) \<Longrightarrow> length q \<le> length p"
  by (auto simp: ancestors_def)

lemma os_makedirs_Inr:
  assumes "os_makedirs p True w = Inr w'" and "p \<noteq> []"
  shows "fs_files w' = fs_files w \<and> stdout w' = stdout w \<and> p \<in> fs_dirs w' \<and> fs_files w p = None
       \<and> (\<forall>q \<in> fs_dirs w'. q \<in> fs_dirs w \<or> length q \<le> length p)
       \<and> fs_dirs w \<subseteq> fs_dirs w'"
  using assms self_in_ancestors [of p] ancestors_length [of _ p]
  by (auto simp: os_makedirs_def split: if_splits)

lemma os_makedirs_again:
  "p \<in> fs_dirs w \<Longrightarrow> fs_files w p = None \<Longrightarrow> os_makedirs p True w = Inr w"
  by (simp add: os_makedirs_def)

lemma main_Inr_iff:
  "main script_file w = Inr w' \<longleftrightarrow>
     (\<exists>w1. os_makedirs (path_dirname script_file @ [''Resources'']) True w = Inr w1
         \<and> path_dirname script_file @ [''Resources'', ''app.ico''] \<notin> fs_dirs w1
         \<and> path_dirname script_file @ [''Resources'', ''app_preview.png''] \<notin> fs_dirs w1
         \<and> w' = w1\<lparr>fs_files := (fs_files w1)
                    (path_dirname script_file @ [''Resources'', ''app.ico'']
                       \<mapsto> ICO [Provided (spec_icon 16)],
                     path_dirname script_file @ [''Resources'', ''app_preview.png'']
                       \<mapsto> PNG (spec_icon 256)),
                  stdout := stdout w1 @
                    [''Icon created: '' @ path_str (path_dirname script_file @ [''Resources'', ''app.ico'']),
                     ''Preview created: '' @ path_str (path_dirname script_file @ [''Resources'', ''app_preview.png''])]\<rparr>)"
  (is "?L \<longleftrightarrow> ?R")
proof
  assume ?L
  then obtain w1 where w1: "os_makedirs (path_dirname script_file @ [''Resources'']) True w = Inr w1"
    by (auto simp: main_def path_join_def Let_def split: sum.splits)
  from os_makedirs_Inr [OF w1] have R: "path_dirname script_file @ [''Resources''] \<in> fs_dirs w1"
    by simp
  from \<open>?L\<close> w1 R show ?R
    by (auto simp: main_def path_join_def Let_def create_ico_file_eq save_png_def render_256
        write_file_Inr print_def path_dirname_def [of "_ @ _"] butlast_append split: sum.splits)
next
  assume ?R
  then obtain w1 where w1: "os_makedirs (path_dirname script_file @ [''Resources'']) True w = Inr w1"
    and rest: "path_dirname script_file @ [''Resources'', ''app.ico''] \<notin> fs_dirs w1"
      "path_dirname script_file @ [''Resources'', ''app_preview.png''] \<notin> fs_dirs w1"
      "w' = w1\<lparr>fs_files := (fs_files w1)
                    (path_dirname script_file @ [''Resources'', ''app.ico'']
                       \<mapsto> ICO [Provided (spec_icon 16)],
                     path_dirname script_file @ [''Resources'', ''app_preview.png'']
                       \<mapsto> PNG (spec_icon 256)),
                  stdout := stdout w1 @
                    [''Icon created: '' @ path_str (path_dirname script_file @ [''Resources'', ''app.ico'']),
                     ''Preview created: '' @ path_str (path_dirname script_file @ [''Resources'', ''app_preview.png''])]\<rparr>"
    by blast
  from os_makedirs_Inr [OF w1] have R: "path_dirname script_file @ [''Resources''] \<in> fs_dirs w1"
    by simp
  have a: "write_file (path_dirname script_file @ [''Resources'', ''app.ico'']) f w1
      = Inr (w1\<lparr>fs_files := (fs_files w1)(path_dirname script_file @ [''Resources'', ''app.ico''] \<mapsto> f)\<rparr>)" for f
    using rest(1) R by (simp add: write_file_def path_dirname_def [of "_ @ _"] butlast_append)
  show ?L
    using w1 rest R
    by (simp add: main_def path_join_def Let_def create_ico_file_eq save_png_def render_256 a
        write_file_def print_def path_dirname_def [of "_ @ _"] butlast_append)
qed


lemma main_empty_world: "main [''generate_icon.py''] empty_world = Inr first_run"
  unfolding main_Inr_iff
  by (simp add: os_makedirs_def empty_world_def first_run_def ancestors_def path_dirname_def upt_rec)

lemma main_first_run:
  "main [''generate_icon.py''] first_run =
     Inr (first_run\<lparr>stdout := stdout first_run @
            [''Icon created: Resources/app.ico'', ''Preview created: Resources/app_preview.png'']\<rparr>)"
  unfolding main_Inr_iff
  by (simp add: os_makedirs_def first_run_def path_dirname_def)

lemma rendered_canvases:
  "\<exists>images. render_loop sizes [] = Inr images
     \<and> map im_size images = [(16, 16), (32, 32), (48, 48), (64, 64), (128, 128), (256, 256)]
     \<and> map Inr images = map create_icon_image sizes"
  using render_16 render_32 render_48 render_64 render_128 render_256
  by (simp add: render_loop_sizes sizes_def im_size_spec_icon)


lemma ico_single_frame:
  "create_ico_file p w = Inr w' \<Longrightarrow> fs_files w' p = Some (ICO [Provided (spec_icon 16)])"
  by (auto simp: create_ico_file_eq write_file_Inr print_def split: sum.splits)

text \<open>
  Claim C6 says that the container written by \<open>create_ico_file\<close> holds exactly six frames,
  of the sizes 16 to 256. The function does render one canvas for each of the six sizes,
  in ascending order (\<open>rendered_canvases\<close>), and passes all of them to \<open>save\<close>; but it
  calls \<open>save\<close> on \<open>images[0]\<close>, the 16 by 16 canvas, and the ICO writer ignores every
  requested size that is bigger than the image it is called on. In the resources directory
  of an otherwise empty file system, the container written holds one frame, of size
  16 by 16. The docstring of the function says ``Create a multi-resolution ICO file''.
\<close>

theorem ico_container_frames:
  "map_sum id (\<lambda>w. map_option (\<lambda>f. case f of ICO frames \<Rightarrow> map frame_size frames | PNG im \<Rightarrow> [])
                     (fs_files w [''Resources'', ''app.ico'']))
     (create_ico_file [''Resources'', ''app.ico''] resources_only)
   = Inr (Some [(16, 16)])"
  by (simp add: create_ico_file_eq write_file_def resources_only_def path_dirname_def print_def
      im_size_spec_icon)

text \<open>
  Claim C10. When the script succeeds, the standalone preview written to
  \<^verbatim>\<open>Resources/app_preview.png\<close> is the canvas \<open>create_icon_image 256\<close>, of size 256 by 256,
  and it is equal to the sixth canvas rendered for the icon container (\<open>images[5]\<close>, the
  one rendered for the size \<open>sizes[5] = 256\<close>): two calls of the same function on 256.
\<close>

theorem preview_is_container_canvas:
  assumes "main script_file w = Inr w'"
  shows "\<exists>images preview.
           render_loop sizes [] = Inr images \<and> length images = 6
         \<and> fs_files w' (path_join (path_join (path_dirname script_file) ''Resources'') ''app_preview.png'')
             = Some (PNG preview)
         \<and> preview = images ! 5 \<and> im_size preview = (256, 256) \<and> sizes ! 5 = 256
         \<and> create_icon_image 256 = Inr preview"
proof -
  from assms obtain w1 where
    w': "w' = w1\<lparr>fs_files := (fs_files w1)
                    (path_dirname script_file @ [''Resources'', ''app.ico'']
                       \<mapsto> ICO [Provided (spec_icon 16)],
                     path_dirname script_file @ [''Resources'', ''app_preview.png'']
                       \<mapsto> PNG (spec_icon 256)),
                  stdout := stdout w1 @
                    [''Icon created: '' @ path_str (path_dirname script_file @ [''Resources'', ''app.ico'']),
                     ''Preview created: '' @ path_str (path_dirname script_file @ [''Resources'', ''app_preview.png''])]\<rparr>"
    unfolding main_Inr_iff by blast
  show ?thesis
    unfolding render_loop_sizes
    by (simp add: w' path_join_def sizes_def im_size_spec_icon render_256)
qed

theorem preview_is_container_canvas_witness:
  "main [''generate_icon.py''] empty_world = Inr first_run
   \<and> fs_files first_run [''Resources'', ''app_preview.png''] = Some (PNG (spec_icon 256))
   \<and> render_loop sizes [] = Inr (map spec_icon sizes)
   \<and> map spec_icon sizes ! 5 = spec_icon 256
   \<and> create_icon_image 256 = Inr (spec_icon 256)"
  using preview_is_container_canvas [OF main_empty_world] main_empty_world render_256
  unfolding render_loop_sizes
  by (simp add: sizes_def first_run_def)

text \<open>
  Claim C7. A second run of the script, started in the file system the first run left,
  succeeds and leaves every file and directory as it was: \<open>os.makedirs\<close> is called with
  \<open>exist_ok=True\<close> and each \<open>save\<close> replaces the file. The two files written do not depend
  on the file system the script starts in, and two calls of \<open>create_icon_image\<close> on one
  size return the same canvas (the function reads nothing but its argument). A file
  is recorded by the frames it holds; its bytes are the library encoder's function of
  them.
\<close>

theorem rerun_writes_same_files:
  assumes "main script_file w = Inr w1"
  shows "(\<exists>w2. main script_file w1 = Inr w2 \<and> fs_files w2 = fs_files w1 \<and> fs_dirs w2 = fs_dirs w1)
       \<and> (\<forall>v v1. main script_file v = Inr v1 \<longrightarrow>
             fs_files v1 (path_dirname script_file @ [''Resources'', ''app.ico''])
               = fs_files w1 (path_dirname script_file @ [''Resources'', ''app.ico''])
           \<and> fs_files v1 (path_dirname script_file @ [''Resources'', ''app_preview.png''])
               = fs_files w1 (path_dirname script_file @ [''Resources'', ''app_preview.png'']))
       \<and> (\<forall>sz a b. create_icon_image sz = Inr a \<and> create_icon_image sz = Inr b \<longrightarrow> a = b)"
proof -
  from assms obtain w0 where
    mk: "os_makedirs (path_dirname script_file @ [''Resources'']) True w = Inr w0"
    and n1: "path_dirname script_file @ [''Resources'', ''app.ico''] \<notin> fs_dirs w0"
    and n2: "path_dirname script_file @ [''Resources'', ''app_preview.png''] \<notin> fs_dirs w0"
    and w1: "w1 = w0\<lparr>fs_files := (fs_files w0)
                    (path_dirname script_file @ [''Resources'', ''app.ico'']
                       \<mapsto> ICO [Provided (spec_icon 16)],
                     path_dirname script_file @ [''Resources'', ''app_preview.png'']
                       \<mapsto> PNG (spec_icon 256)),
                  stdout := stdout w0 @
                    [''Icon created: '' @ path_str (path_dirname script_file @ [''Resources'', ''app.ico'']),
                     ''Preview created: '' @ path_str (path_dirname script_file @ [''Resources'', ''app_preview.png''])]\<rparr>"
    unfolding main_Inr_iff by blast
  from os_makedirs_Inr [OF mk] have R: "path_dirname script_file @ [''Resources''] \<in> fs_dirs w0"
    and f: "fs_files w0 (path_dirname script_file @ [''Resources'']) = None"
    by auto
  have again: "os_makedirs (path_dirname script_file @ [''Resources'']) True w1 = Inr w1"
    using R f by (intro os_makedirs_again) (simp_all add: w1)
  have rerun: "\<exists>w2. main script_file w1 = Inr w2 \<and> fs_files w2 = fs_files w1 \<and> fs_dirs w2 = fs_dirs w1"
    unfolding main_Inr_iff again using n1 n2 by (simp add: w1)
  have same: "fs_files v1 (path_dirname script_file @ [''Resources'', ''app.ico''])
               = fs_files w1 (path_dirname script_file @ [''Resources'', ''app.ico''])
           \<and> fs_files v1 (path_dirname script_file @ [''Resources'', ''app_preview.png''])
               = fs_files w1 (path_dirname script_file @ [''Resources'', ''app_preview.png''])"
    if "main script_file v = Inr v1" for v v1
    using that assms unfolding main_Inr_iff by auto
  show ?thesis using rerun same by auto
qed


theorem rerun_writes_same_files_witness:
  "main [''generate_icon.py''] empty_world = Inr first_run
   \<and> main [''generate_icon.py''] first_run =
       Inr (first_run\<lparr>stdout := stdout first_run @
              [''Icon created: Resources/app.ico'', ''Preview created: Resources/app_preview.png'']\<rparr>)
   \<and> fs_files first_run [''Resources'', ''app.ico''] = Some (ICO [Provided (spec_icon 16)])"
  using rerun_writes_same_files [OF main_empty_world] main_empty_world main_first_run
  by (simp add: first_run_def)

end
